theory Spec2Isabelle
  imports Complex_Main "HOL-Library.Char_ord"
begin

section \<open>JavaScript values and strings\<close>

text \<open>
  A field of a parsed JSON request body. \<open>JUndefined\<close> is an absent field; \<open>JObj\<close> stands
  for any object or array (always truthy, never a string, its content is not read by the
  controller). JSON carries finite numbers only, so there is no NaN among the inputs.
  A \<open>char\<close> stands for one UTF-16 code unit below U+0100.
\<close>

datatype jsval = JUndefined | JNull | JBool bool | JNum rat | JStr string | JObj

text \<open>The operand test of \<open>!x\<close>: the falsy values are undefined, null, false, 0 and "".\<close>

fun truthy :: "jsval \<Rightarrow> bool" where
  "truthy JUndefined = False"
| "truthy JNull = False"
| "truthy (JBool b) = b"
| "truthy (JNum n) = (n \<noteq> 0)"
| "truthy (JStr s) = (s \<noteq> [])"
| "truthy JObj = True"

text \<open>\<open>a === b\<close>; two parsed objects are distinct references and never strictly equal.\<close>

fun strict_eq :: "jsval \<Rightarrow> jsval \<Rightarrow> bool" where
  "strict_eq JUndefined JUndefined = True"
| "strict_eq JNull JNull = True"
| "strict_eq (JBool a) (JBool b) = (a = b)"
| "strict_eq (JNum a) (JNum b) = (a = b)"
| "strict_eq (JStr a) (JStr b) = (a = b)"
| "strict_eq _ _ = False"

text \<open>
  White space and line terminators of ECMAScript among the code units below U+0100:
  TAB, LF, VT, FF, CR, SPACE and NO-BREAK SPACE. This is the class \<open>\s\<close> and what
  \<open>trim()\<close> strips.
\<close>

definition is_space :: "char \<Rightarrow> bool" where
  "is_space c \<longleftrightarrow> c \<in> set [CHR 0x09, CHR 0x0A, CHR 0x0B, CHR 0x0C, CHR 0x0D, CHR 0x20, CHR 0xA0]"

definition js_trim :: "string \<Rightarrow> string" where
  "js_trim s = rev (dropWhile is_space (rev (dropWhile is_space s)))"

definition is_upper_az :: "char \<Rightarrow> bool" where
  "is_upper_az c \<longleftrightarrow> CHR ''A'' \<le> c \<and> c \<le> CHR ''Z''"

definition is_lower_az :: "char \<Rightarrow> bool" where
  "is_lower_az c \<longleftrightarrow> CHR ''a'' \<le> c \<and> c \<le> CHR ''z''"

definition is_digit :: "char \<Rightarrow> bool" where
  "is_digit c \<longleftrightarrow> CHR ''0'' \<le> c \<and> c \<le> CHR ''9''"

text \<open>
  \<open>toLowerCase()\<close> on one code unit below U+0100: A to Z and the capital letters
  U+00C0 to U+00DE (the multiplication sign U+00D7 apart) move up by 32.
\<close>

definition lower_char :: "char \<Rightarrow> char" where
  "lower_char c =
     (if is_upper_az c \<or> (CHR 0xC0 \<le> c \<and> c \<le> CHR 0xDE \<and> c \<noteq> CHR 0xD7)
      then char_of (of_char c + (32::nat)) else c)"

definition toLowerCase :: "string \<Rightarrow> string" where
  "toLowerCase s = map lower_char s"

section \<open>Validation helpers\<close>

text \<open>
  \<open>/^[^\s@]+@[^\s@]+\.[^\s@]+$/\<close>: the three classes exclude \<open>@\<close>, so the text splits at
  its only \<open>@\<close>; before it one or more characters, after it a dot with at least one
  character on each side; no white space anywhere.
\<close>

definition emailRegex :: "string \<Rightarrow> bool" where
  "emailRegex s =
     (let a = takeWhile (\<lambda>c. c \<noteq> CHR ''@'') s; r = dropWhile (\<lambda>c. c \<noteq> CHR ''@'') s
      in a \<noteq> [] \<and> r \<noteq> [] \<and> CHR ''@'' \<notin> set (tl r) \<and> (\<forall>c \<in> set s. \<not> is_space c)
         \<and> CHR ''.'' \<in> set (butlast (tl (tl r))))"

fun validateEmail :: "jsval \<Rightarrow> bool" where
  "validateEmail (JStr email) = (emailRegex (js_trim email) \<and> length email \<le> 100)"
| "validateEmail _ = False"

definition usernameRegex :: "string \<Rightarrow> bool" where
  "usernameRegex s \<longleftrightarrow>
     3 \<le> length s \<and> length s \<le> 20
     \<and> (\<forall>c \<in> set s. is_lower_az c \<or> is_upper_az c \<or> is_digit c \<or> c = CHR ''_'')"

fun validateUsername :: "jsval \<Rightarrow> bool" where
  "validateUsername (JStr username) = usernameRegex (js_trim username)"
| "validateUsername _ = False"

fun validatePassword :: "jsval \<Rightarrow> bool" where
  "validatePassword (JStr password) =
     (length password \<ge> 6 \<and> length password \<le> 128
      \<and> (\<exists>c \<in> set password. is_lower_az c \<or> is_upper_az c)
      \<and> (\<exists>c \<in> set password. is_digit c))"
| "validatePassword _ = False"

text \<open>\<open>input.trim().replace(/^\$/, "")\<close>: at most one leading dollar sign is removed.\<close>

fun sanitizeInput :: "jsval \<Rightarrow> string" where
  "sanitizeInput (JStr input) =
     (case js_trim input of [] \<Rightarrow> [] | c # cs \<Rightarrow> if c = CHR ''$'' then cs else c # cs)"
| "sanitizeInput _ = []"

section \<open>The stores and the outside world\<close>

text \<open>A user document; \<open>u_id\<close> is the store's \<open>_id\<close>.\<close>

record user =
  u_id :: nat
  u_username :: string
  u_email :: string
  u_password :: string
  u_profilePic :: "string option"

text \<open>A one-time code document of the OTP collection.\<close>

record otp =
  o_email :: string
  o_code :: int
  o_createdAt :: int

text \<open>
  The two collections, and the mails handed to \<open>sendEmail\<close> so far (recipient, subject,
  text). Times are milliseconds, as \<open>Date.now()\<close> counts them.
\<close>

record store =
  users :: "user list"
  otps :: "otp list"
  outbox :: "(string \<times> string \<times> string) list"

text \<open>What \<open>ticket.getPayload()\<close> yields for a verified Google identity token.\<close>

record google_payload =
  g_email :: string
  g_name :: string
  g_picture :: "string option"

text \<open>
  The collaborators whose code is outside the controller, taken as parameters:
  the password hash of the user model's save hook, \<open>user.matchPassword\<close> (stored hash and
  entered value), \<open>generateToken\<close> and \<open>jwt.sign\<close> (user id and time of issue),
  \<open>client.verifyIdToken\<close> (\<open>None\<close> when it throws) and \<open>sendEmail\<close> (\<open>Some m\<close> when
  it throws an error with message \<open>m\<close>).
\<close>

record env =
  hashPassword :: "string \<Rightarrow> string"
  matchPassword :: "string \<Rightarrow> jsval \<Rightarrow> bool"
  generateToken :: "nat \<Rightarrow> int \<Rightarrow> string"
  jwt_sign :: "nat \<Rightarrow> int \<Rightarrow> string"
  verifyIdToken :: "jsval \<Rightarrow> google_payload option"
  sendEmail :: "string \<Rightarrow> string \<Rightarrow> string \<Rightarrow> string option"

text \<open>\<open>User.findOne({ email })\<close> and \<open>User.findOne({ username })\<close>: the first document that matches.\<close>

definition User_findOne_email :: "user list \<Rightarrow> string \<Rightarrow> user option" where
  "User_findOne_email us e = find (\<lambda>u. u_email u = e) us"

definition User_findOne_username :: "user list \<Rightarrow> string \<Rightarrow> user option" where
  "User_findOne_username us n = find (\<lambda>u. u_username u = n) us"

definition fresh_id :: "user list \<Rightarrow> nat" where
  "fresh_id us = Suc (foldr max (map u_id us) 0)"

text \<open>
  Modelled from the spec: models/user.model is not among the sources. The password is kept
  as a hash (``creates UserIdentity with hashed password''), and an account made by
  Google sign-in keeps the empty string (``creates one with empty password hash'').
\<close>

definition presave :: "env \<Rightarrow> string \<Rightarrow> string" where
  "presave E p = (if p = [] then [] else hashPassword E p)"

text \<open>
  Modelled from the spec: models/user.model is not among the sources. \<open>User.create\<close> adds
  one document under a fresh id (``Side effect: one new UserIdentity record''); the fields
  are stored as the controller passes them.
\<close>

definition User_create ::
  "env \<Rightarrow> user list \<Rightarrow> string \<Rightarrow> string \<Rightarrow> string \<Rightarrow> string option \<Rightarrow> user \<times> user list" where
  "User_create E us n e p pic =
     (let u = \<lparr>u_id = fresh_id us, u_username = n, u_email = e, u_password = presave E p,
               u_profilePic = pic\<rparr>
      in (u, us @ [u]))"

text \<open>
  \<open>user.password = newPassword; await user.save()\<close>: the save writes the one modified path
  of the document with that \<open>_id\<close>.
\<close>

fun User_save_password :: "env \<Rightarrow> nat \<Rightarrow> string \<Rightarrow> user list \<Rightarrow> user list" where
  "User_save_password E i p [] = []"
| "User_save_password E i p (u # us) =
     (if u_id u = i then u\<lparr>u_password := presave E p\<rparr> # us
      else u # User_save_password E i p us)"

text \<open>
  The result of \<open>Number(code)\<close>, which is all the controller reads of the request's code:
  \<open>None\<close> is NaN or an infinity, which equals no stored code.
\<close>

type_synonym jsnum = "rat option"

text \<open>\<open>OTP.findOne({ email, code })\<close>: the first document whose email and code both match.\<close>

definition OTP_findOne :: "otp list \<Rightarrow> string \<Rightarrow> jsnum \<Rightarrow> otp option" where
  "OTP_findOne os e c = find (\<lambda>r. o_email r = e \<and> Some (of_int (o_code r)) = c) os"

text \<open>
  Modelled from the spec: models/otp.model is not among the sources. \<open>OTP.create\<close> adds one
  document whose creation timestamp is the present time (``persists a new OneTimeCode
  record (creation timestamp = now)'').
\<close>

definition OTP_create :: "int \<Rightarrow> otp list \<Rightarrow> string \<Rightarrow> int \<Rightarrow> otp list" where
  "OTP_create now os e c = os @ [\<lparr>o_email = e, o_code = c, o_createdAt = now\<rparr>]"

section \<open>Responses\<close>

text \<open>
  A user document as a plain object: \<open>toObject()\<close> carries every stored path, the
  password among them; \<open>delete userObj.password\<close> removes that one key.
\<close>

record user_obj =
  j_id :: nat
  j_username :: string
  j_email :: string
  j_password :: "string option"
  j_profilePic :: "string option"

definition toObject :: "user \<Rightarrow> user_obj" where
  "toObject u = \<lparr>j_id = u_id u, j_username = u_username u, j_email = u_email u,
                 j_password = Some (u_password u), j_profilePic = u_profilePic u\<rparr>"

definition delete_password :: "user_obj \<Rightarrow> user_obj" where
  "delete_password ob = ob\<lparr>j_password := None\<rparr>"

text \<open>
  The JSON bodies the handlers send: \<open>{...userObj, token}\<close>, the bare user object of
  \<open>getMe\<close>, \<open>{message, success}\<close>, and \<open>{success, token, user}\<close> of the Google route.
\<close>

datatype body =
  Identity user_obj string
| Profile user_obj
| Ack string bool
| GoogleOk bool string user_obj

text \<open>
  A thrown \<open>Error\<close>, which \<open>asyncHandler\<close> passes on: the status code set on the
  response when it was thrown (200 unless \<open>res.status\<close> was called) and the message.
\<close>

datatype err = Err nat string

type_synonym response = "nat \<times> body"

type_synonym outcome = "(err + response) \<times> store"

text \<open>The decimal text of a number inside a template literal.\<close>

fun show_nat :: "nat \<Rightarrow> string" where
  "show_nat n =
     (if n < 10 then [char_of (48 + n)] else show_nat (n div 10) @ [char_of (48 + n mod 10)])"

definition show_int :: "int \<Rightarrow> string" where
  "show_int i = (if i < 0 then CHR ''-'' # show_nat (nat (- i)) else show_nat (nat i))"

text \<open>The string behind a value that a validator has found to be a string.\<close>

fun js_string :: "jsval \<Rightarrow> string" where
  "js_string (JStr s) = s"
| "js_string _ = []"

section \<open>The controller\<close>

text \<open>
  Every handler takes the collaborators, the present time where it reads the clock, the
  stores and the fields of the request body, and returns what it sends or throws together
  with the stores as it leaves them.
\<close>

definition googleAuth :: "env \<Rightarrow> int \<Rightarrow> store \<Rightarrow> jsval \<Rightarrow> outcome" where
  "googleAuth E now s token =
     (case verifyIdToken E token of
        None \<Rightarrow> (Inr (400, Ack ''Google login failed'' False), s)
      | Some pl \<Rightarrow>
          (case User_findOne_email (users s) (g_email pl) of
             Some u \<Rightarrow> (Inr (200, GoogleOk True (jwt_sign E (u_id u) now) (toObject u)), s)
           | None \<Rightarrow>
               (case User_create E (users s) (g_name pl) (g_email pl) [] (g_picture pl) of
                  (u, us) \<Rightarrow>
                    (Inr (200, GoogleOk True (jwt_sign E (u_id u) now) (toObject u)),
                     s\<lparr>users := us\<rparr>))))"

definition registerUser :: "env \<Rightarrow> int \<Rightarrow> store \<Rightarrow> jsval \<Rightarrow> jsval \<Rightarrow> jsval \<Rightarrow> outcome" where
  "registerUser E now s username email password =
     (if \<not> truthy username \<or> \<not> truthy email \<or> \<not> truthy password
      then (Inl (Err 400 ''Please provide all required fields''), s)
      else let sanitizedUsername = sanitizeInput username;
               sanitizedEmail = sanitizeInput email
      in if \<not> validateUsername (JStr sanitizedUsername)
         then (Inl (Err 200 ''Invalid username format''), s)
         else if \<not> validateEmail (JStr sanitizedEmail)
         then (Inl (Err 200 ''Invalid email address''), s)
         else if \<not> validatePassword password
         then (Inl (Err 200 ''Weak password''), s)
         else if User_findOne_email (users s) (toLowerCase sanitizedEmail) \<noteq> None
         then (Inl (Err 200 ''Email already registered''), s)
         else if User_findOne_username (users s) sanitizedUsername \<noteq> None
         then (Inl (Err 200 ''Username already taken''), s)
         else (case User_create E (users s) sanitizedUsername (toLowerCase sanitizedEmail)
                      (js_string password) None of
                 (u, us) \<Rightarrow>
                   (Inr (201, Identity (delete_password (toObject u)) (generateToken E (u_id u) now)),
                    s\<lparr>users := us\<rparr>)))"

definition loginUser :: "env \<Rightarrow> int \<Rightarrow> store \<Rightarrow> jsval \<Rightarrow> jsval \<Rightarrow> outcome" where
  "loginUser E now s email password =
     (if \<not> truthy email \<or> \<not> truthy password
      then (Inl (Err 200 ''Please provide email and password''), s)
      else let sanitizedEmail = sanitizeInput email
      in if \<not> validateEmail (JStr sanitizedEmail)
         then (Inl (Err 200 ''Invalid email address''), s)
         else (case User_findOne_email (users s) (toLowerCase sanitizedEmail) of
                 None \<Rightarrow> (Inl (Err 401 ''Invalid email or password''), s)
               | Some u \<Rightarrow>
                   if matchPassword E (u_password u) password
                   then (Inr (200, Identity (delete_password (toObject u))
                                     (generateToken E (u_id u) now)), s)
                   else (Inl (Err 401 ''Invalid email or password''), s)))"

text \<open>\<open>req.user\<close> is what the route's \<open>protect\<close> middleware has attached, if anything.\<close>

definition getMe :: "store \<Rightarrow> user option \<Rightarrow> outcome" where
  "getMe s req_user =
     (case req_user of
        None \<Rightarrow> (Inl (Err 401 ''Not authorized''), s)
      | Some u \<Rightarrow> (Inr (200, Profile (delete_password (toObject u))), s))"

text \<open>
  \<open>otpCode\<close> is the value of \<open>Math.floor(100000 + Math.random() * 999999)\<close>, a whole
  number from 100000 to 1099998. The handler takes it as given: the double-precision
  arithmetic behind it is not modelled.
\<close>

definition forgotPassword :: "env \<Rightarrow> int \<Rightarrow> int \<Rightarrow> store \<Rightarrow> jsval \<Rightarrow> outcome" where
  "forgotPassword E otpCode now s email =
     (if \<not> truthy email then (Inl (Err 200 ''Please provide an email''), s)
      else let sanitizedEmail = sanitizeInput email
      in if \<not> validateEmail (JStr sanitizedEmail)
         then (Inl (Err 200 ''Invalid email address''), s)
         else (case User_findOne_email (users s) (toLowerCase sanitizedEmail) of
                 None \<Rightarrow> (Inr (200, Ack ''If account exists, OTP sent'' True), s)
               | Some u \<Rightarrow>
                   let s1 = s\<lparr>otps := OTP_create now (otps s) (toLowerCase sanitizedEmail) otpCode\<rparr>;
                       subject = ''Password Reset OTP'';
                       text = ''Your OTP code is '' @ show_int otpCode @ ''. Valid for 5 minutes.''
                   in (case sendEmail E sanitizedEmail subject text of
                         Some m \<Rightarrow> (Inl (Err 200 m), s1)
                       | None \<Rightarrow>
                           (Inr (200, Ack ''OTP sent'' True),
                            s1\<lparr>outbox := outbox s1 @ [(sanitizedEmail, subject, text)]\<rparr>))))"

definition validateOTP :: "int \<Rightarrow> store \<Rightarrow> jsval \<Rightarrow> jsnum \<Rightarrow> outcome" where
  "validateOTP now s email code =
     (let sanitizedEmail = sanitizeInput email
      in case OTP_findOne (otps s) sanitizedEmail code of
           None \<Rightarrow> (Inl (Err 200 ''Invalid or expired OTP''), s)
         | Some otpRecord \<Rightarrow>
             if now > o_createdAt otpRecord + 5 * 60 * 1000
             then (Inl (Err 200 ''Invalid or expired OTP''), s)
             else (Inr (200, Ack ''OTP validated'' True), s))"

definition resetPassword ::
  "env \<Rightarrow> int \<Rightarrow> store \<Rightarrow> jsval \<Rightarrow> jsnum \<Rightarrow> jsval \<Rightarrow> jsval \<Rightarrow> outcome" where
  "resetPassword E now s email code newPassword confirmPassword =
     (if \<not> truthy newPassword \<or> \<not> truthy confirmPassword
      then (Inl (Err 200 ''Provide both passwords''), s)
      else let sanitizedEmail = sanitizeInput email
      in case OTP_findOne (otps s) sanitizedEmail code of
           None \<Rightarrow> (Inl (Err 200 ''Invalid or expired OTP''), s)
         | Some otpRecord \<Rightarrow>
             if now > o_createdAt otpRecord + 5 * 60 * 1000
             then (Inl (Err 200 ''Invalid or expired OTP''), s)
             else if \<not> strict_eq newPassword confirmPassword
             then (Inl (Err 200 ''Passwords do not match''), s)
             else if \<not> validatePassword newPassword
             then (Inl (Err 200 ''Weak password''), s)
             else (case User_findOne_email (users s) (toLowerCase sanitizedEmail) of
                     None \<Rightarrow> (Inl (Err 200 ''User not found''), s)
                   | Some u \<Rightarrow>
                       (Inr (200, Ack ''Password reset successfully'' True),
                        s\<lparr>users := User_save_password E (u_id u) (js_string newPassword) (users s)\<rparr>)))"

section \<open>Sequences of requests\<close>

text \<open>One request to the server, with the fields of its body.\<close>

datatype request =
  Register jsval jsval jsval
| Login jsval jsval
| GoogleSignIn jsval
| ForgotPassword int jsval
| ValidateOTP jsval jsnum
| ResetPassword jsval jsnum jsval jsval

text \<open>The stores after one request handled at time \<open>now\<close>, and after a list of them in turn.\<close>

fun step :: "env \<Rightarrow> int \<times> request \<Rightarrow> store \<Rightarrow> store" where
  "step E (now, Register u e p) s = snd (registerUser E now s u e p)"
| "step E (now, Login e p) s = snd (loginUser E now s e p)"
| "step E (now, GoogleSignIn t) s = snd (googleAuth E now s t)"
| "step E (now, ForgotPassword otpCode e) s = snd (forgotPassword E otpCode now s e)"
| "step E (now, ValidateOTP e c) s = snd (validateOTP now s e c)"
| "step E (now, ResetPassword e c p q) s = snd (resetPassword E now s e c p q)"

fun run :: "env \<Rightarrow> (int \<times> request) list \<Rightarrow> store \<Rightarrow> store" where
  "run E [] s = s"
| "run E (r # rs) s = run E rs (step E r s)"

definition empty_store :: store where
  "empty_store = \<lparr>users = [], otps = [], outbox = []\<rparr>"

text \<open>
  The three properties of the user records: the username is 3 to 20 characters of
  letters, digits and underscore; usernames are unique; emails are unique when compared
  without regard to case.
\<close>

definition identity_invariant :: "user list \<Rightarrow> bool" where
  "identity_invariant us \<longleftrightarrow>
     (\<forall>u \<in> set us. usernameRegex (u_username u))
     \<and> distinct (map u_username us)
     \<and> distinct (map (\<lambda>u. toLowerCase (u_email u)) us)"

text \<open>Every stored email is in lower case already.\<close>

definition emails_normalized :: "user list \<Rightarrow> bool" where
  "emails_normalized us \<longleftrightarrow> (\<forall>u \<in> set us. toLowerCase (u_email u) = u_email u)"

text \<open>Every email of the OTP collection is in lower case.\<close>

definition otp_emails_normalized :: "otp list \<Rightarrow> bool" where
  "otp_emails_normalized os \<longleftrightarrow> (\<forall>r \<in> set os. toLowerCase (o_email r) = o_email r)"

text \<open>
  The requests that go through the validated paths only: no Google sign-in, and no
  registration whose sanitized username still has white space around it.
\<close>

fun validated_path :: "request \<Rightarrow> bool" where
  "validated_path (GoogleSignIn t) = False"
| "validated_path (Register u e p) = (js_trim (sanitizeInput u) = sanitizeInput u)"
| "validated_path _ = True"

section \<open>The client state container\<close>

text \<open>
  A value held by the client: \<open>null\<close>, \<open>undefined\<close>, a string, or any other value
  (a number, a boolean, an object, an array), which is given by the text that \<open>String\<close>
  makes of it and the text that \<open>JSON.stringify\<close> makes of it.
\<close>

datatype cval = Null | Undefined | Val string | Other string string

text \<open>What \<open>localStorage.setItem\<close> stores for a value: the text \<open>String\<close> makes of it.\<close>

fun stored_text :: "cval \<Rightarrow> string" where
  "stored_text Null = ''null''"
| "stored_text Undefined = ''undefined''"
| "stored_text (Val t) = t"
| "stored_text (Other t j) = t"

text \<open>
  One character of a string inside \<open>JSON.stringify\<close>: the quotation mark and the
  backslash get a backslash before them, the control characters become their short
  names or, after a backslash, the letter u, two zeros and two lower-case hexadecimal
  digits.
\<close>

definition hex_digit :: "nat \<Rightarrow> char" where
  "hex_digit n = (if n < 10 then char_of (48 + n) else char_of (87 + n))"

definition json_escape :: "char \<Rightarrow> string" where
  "json_escape c =
     (if c = CHR 0x22 then [CHR 0x5C, CHR 0x22]
      else if c = CHR 0x5C then [CHR 0x5C, CHR 0x5C]
      else if c = CHR 0x08 then [CHR 0x5C, CHR ''b'']
      else if c = CHR 0x0C then [CHR 0x5C, CHR ''f'']
      else if c = CHR 0x0A then [CHR 0x5C, CHR ''n'']
      else if c = CHR 0x0D then [CHR 0x5C, CHR ''r'']
      else if c = CHR 0x09 then [CHR 0x5C, CHR ''t'']
      else if (of_char c :: nat) < 32
      then [CHR 0x5C, CHR ''u'', CHR ''0'', CHR ''0'',
            hex_digit (of_char c div 16), hex_digit (of_char c mod 16)]
      else [c])"

text \<open>
  What \<open>localStorage.setItem\<close> stores for \<open>JSON.stringify(v)\<close>: a string is quoted,
  and \<open>undefined\<close>, for which \<open>JSON.stringify\<close> gives \<open>undefined\<close>, is stored as that
  word.
\<close>

fun JSON_stringify :: "cval \<Rightarrow> string" where
  "JSON_stringify Null = ''null''"
| "JSON_stringify Undefined = ''undefined''"
| "JSON_stringify (Val t) = CHR 0x22 # concat (map json_escape t) @ [CHR 0x22]"
| "JSON_stringify (Other t j) = j"

text \<open>The slice's state, and the two keys of \<open>localStorage\<close> it writes.\<close>

record auth_state =
  a_user :: cval
  a_token :: cval
  loading :: bool
  error :: cval
  resetSuccess :: bool
  otpSent :: bool
  otpValidated :: bool
  ls_token :: "string option"
  ls_user :: "string option"

datatype thunk = T_register | T_login | T_getMe | T_forgotPassword | T_validateOTP | T_resetPassword

text \<open>
  The three actions of a thunk. A fulfilled action carries \<open>payload.user\<close> and
  \<open>payload.token\<close>, a rejected one its payload.
\<close>

datatype phase = Pending | Fulfilled cval cval | Rejected cval

text \<open>\<open>extraReducers\<close>: an action with no case leaves the state as it is.\<close>

fun extraReducers :: "auth_state \<Rightarrow> thunk \<Rightarrow> phase \<Rightarrow> auth_state" where
  "extraReducers st T_register Pending = st\<lparr>loading := True, error := Null\<rparr>"
| "extraReducers st T_register (Fulfilled u t) =
     st\<lparr>loading := False, a_user := u, a_token := t,
        ls_token := Some (stored_text t), ls_user := Some (JSON_stringify u)\<rparr>"
| "extraReducers st T_register (Rejected p) = st\<lparr>loading := False, error := p\<rparr>"
| "extraReducers st T_login Pending = st\<lparr>loading := True, error := Null\<rparr>"
| "extraReducers st T_login (Fulfilled u t) =
     st\<lparr>loading := False, a_user := u, a_token := t,
        ls_token := Some (stored_text t), ls_user := Some (JSON_stringify u)\<rparr>"
| "extraReducers st T_login (Rejected p) = st\<lparr>loading := False, error := p\<rparr>"
| "extraReducers st T_getMe Pending = st\<lparr>loading := True, error := Null\<rparr>"
| "extraReducers st T_getMe (Fulfilled u t) = st\<lparr>loading := False, a_user := u\<rparr>"
| "extraReducers st T_getMe (Rejected p) =
     st\<lparr>loading := False, error := p, a_user := Null, a_token := Null,
        ls_token := None, ls_user := None\<rparr>"
| "extraReducers st T_forgotPassword Pending =
     st\<lparr>loading := True, error := Null, otpSent := False\<rparr>"
| "extraReducers st T_forgotPassword (Fulfilled u t) = st\<lparr>loading := False, otpSent := True\<rparr>"
| "extraReducers st T_forgotPassword (Rejected p) = st\<lparr>loading := False, error := p\<rparr>"
| "extraReducers st T_validateOTP Pending = st"
| "extraReducers st T_validateOTP (Fulfilled u t) = st\<lparr>loading := False, otpValidated := True\<rparr>"
| "extraReducers st T_validateOTP (Rejected p) = st\<lparr>loading := False, error := p\<rparr>"
| "extraReducers st T_resetPassword Pending = st"
| "extraReducers st T_resetPassword (Fulfilled u t) = st\<lparr>loading := False, resetSuccess := True\<rparr>"
| "extraReducers st T_resetPassword (Rejected p) = st\<lparr>loading := False, error := p\<rparr>"

section \<open>Concrete collaborators and stores\<close>

text \<open>
  Stand-ins used where a statement is run on concrete data: the hash puts a mark before the
  password, a token is the user id in decimal after a letter, the identity token
  \<open>good\<close> verifies as Ada Lovelace, and every mail is delivered.
\<close>

definition demo_env :: env where
  "demo_env =
     \<lparr>hashPassword = (\<lambda>p. CHR ''#'' # p),
      matchPassword = (\<lambda>h v. case v of JStr p \<Rightarrow> h = CHR ''#'' # p | _ \<Rightarrow> False),
      generateToken = (\<lambda>i t. CHR ''T'' # show_nat i),
      jwt_sign = (\<lambda>i t. CHR ''G'' # show_nat i),
      verifyIdToken = (\<lambda>t. if t = JStr ''good''
          then Some \<lparr>g_email = ''ada@example.com'', g_name = ''Ada Lovelace'', g_picture = None\<rparr>
          else None),
      sendEmail = (\<lambda>to subject text. None)\<rparr>"

text \<open>A registered user, stores with her record, and a code issued for her at time 1000.\<close>

definition ada :: user where
  "ada = \<lparr>u_id = 1, u_username = ''ada_l'', u_email = ''ada@example.com'',
          u_password = ''#secret1'', u_profilePic = None\<rparr>"

definition ada_store :: store where
  "ada_store = \<lparr>users = [ada], otps = [], outbox = []\<rparr>"

definition ada_otp :: otp where
  "ada_otp = \<lparr>o_email = ''ada@example.com'', o_code = 482913, o_createdAt = 1000\<rparr>"

definition ada_otp_store :: store where
  "ada_otp_store = \<lparr>users = [ada], otps = [ada_otp], outbox = []\<rparr>"

text \<open>
  A second code for Ada with the same digits, issued ten minutes after the first, and the
  store that holds both.
\<close>

definition ada_otp_late :: otp where
  "ada_otp_late = \<lparr>o_email = ''ada@example.com'', o_code = 482913, o_createdAt = 601000\<rparr>"

definition twin_otp_store :: store where
  "twin_otp_store = \<lparr>users = [ada], otps = [ada_otp, ada_otp_late], outbox = []\<rparr>"

text \<open>Requests of two sign-ups, with a login and a duplicate email between them.\<close>

definition two_sign_ups :: "(int \<times> request) list" where
  "two_sign_ups =
     [(1, Register (JStr '' ada_l '') (JStr ''Ada@Example.com'') (JStr ''secret1'')),
      (2, Login (JStr ''ada@example.com'') (JStr ''secret1'')),
      (3, Register (JStr ''grace'') (JStr ''ADA@example.com'') (JStr ''secret2'')),
      (4, Register (JStr ''grace'') (JStr ''grace@example.com'') (JStr ''secret2''))]"

text \<open>A client that is not loading and still shows the error of an earlier attempt.\<close>

definition idle_state :: auth_state where
  "idle_state =
     \<lparr>a_user = Null, a_token = Null, loading = False, error = Val ''Invalid or expired OTP'',
      resetSuccess = False, otpSent = True, otpValidated = False,
      ls_token = None, ls_user = None\<rparr>"

section \<open>Lookups\<close>

lemma OTP_findOne_None_iff:
  "OTP_findOne os e c = None \<longleftrightarrow> (\<forall>r \<in> set os. \<not> (o_email r = e \<and> Some (of_int (o_code r)) = c))"
  by (auto simp: OTP_findOne_def find_None_iff)

lemma OTP_findOne_SomeD:
  "OTP_findOne os e c = Some r \<Longrightarrow> r \<in> set os \<and> o_email r = e \<and> Some (of_int (o_code r)) = c"
  by (auto simp: OTP_findOne_def find_Some_iff)

text \<open>A record that is the only one with its email and code is the one the lookup returns.\<close>

lemma OTP_findOne_unique:
  assumes "r \<in> set os" and "o_email r = e" and "Some (of_int (o_code r)) = c"
    and "\<forall>x \<in> set os. o_email x = o_email r \<and> o_code x = o_code r \<longrightarrow> x = r"
  shows "OTP_findOne os e c = Some r"
proof (cases "OTP_findOne os e c")
  case None
  with assms(1-3) show ?thesis by (auto simp: OTP_findOne_None_iff)
next
  case (Some x)
  from OTP_findOne_SomeD [OF Some] assms(2,3)
  have "x \<in> set os" "o_email x = o_email r" "(of_int (o_code x) :: rat) = of_int (o_code r)"
    by auto
  then have "x = r" using assms(4) by simp
  with Some show ?thesis by simp
qed

section \<open>The email pattern\<close>

text \<open>
  The pattern accepts exactly the texts made of a local part, \<open>@\<close>, a name, a dot and
  an ending, each of the three at least one character long and free of white space and
  of \<open>@\<close>.
\<close>

lemma emailRegex_parts:
  assumes "a \<noteq> []" "b \<noteq> []" "c \<noteq> []"
    and "\<forall>x \<in> set (a @ b @ c). \<not> is_space x \<and> x \<noteq> CHR ''@''"
  shows "emailRegex (a @ CHR ''@'' # b @ CHR ''.'' # c)"
proof -
  have na: "\<forall>x \<in> set a. x \<noteq> CHR ''@''" using assms(4) by simp
  have t: "takeWhile (\<lambda>x. x \<noteq> CHR ''@'') (a @ CHR ''@'' # b @ CHR ''.'' # c) = a"
    using na by (simp add: takeWhile_append2)
  have d: "dropWhile (\<lambda>x. x \<noteq> CHR ''@'') (a @ CHR ''@'' # b @ CHR ''.'' # c)
      = CHR ''@'' # b @ CHR ''.'' # c"
    using na by (simp add: dropWhile_append2)
  obtain b0 bs where b: "b = b0 # bs" using assms(2) by (cases b) auto
  have m: "CHR ''.'' \<in> set (butlast (tl (b @ CHR ''.'' # c)))"
    unfolding b using assms(3) by (simp add: butlast_append)
  have s: "\<not> is_space CHR ''@''" "\<not> is_space CHR ''.''" by (simp_all add: is_space_def)
  show ?thesis
    unfolding emailRegex_def Let_def t d using assms m s by auto
qed

lemma emailRegex_split:
  assumes "emailRegex s"
  shows "\<exists>a b c. s = a @ CHR ''@'' # b @ CHR ''.'' # c \<and> a \<noteq> [] \<and> b \<noteq> [] \<and> c \<noteq> []
           \<and> (\<forall>x \<in> set (a @ b @ c). \<not> is_space x \<and> x \<noteq> CHR ''@'')"
proof -
  define a where "a = takeWhile (\<lambda>x. x \<noteq> CHR ''@'') s"
  define r where "r = dropWhile (\<lambda>x. x \<noteq> CHR ''@'') s"
  have s: "s = a @ r" by (simp add: a_def r_def)
  from assms have h: "a \<noteq> []" "r \<noteq> []" "CHR ''@'' \<notin> set (tl r)"
    "\<forall>x \<in> set s. \<not> is_space x" "CHR ''.'' \<in> set (butlast (tl (tl r)))"
    by (simp_all add: emailRegex_def Let_def a_def r_def)
  have "hd r = CHR ''@''"
    using h(2) hd_dropWhile [of "\<lambda>x. x \<noteq> CHR ''@''" s] by (simp add: r_def)
  with h(2) obtain d where r: "r = CHR ''@'' # d" by (cases r) auto
  from h(5) r obtain xs ys where sp: "butlast (tl d) = xs @ CHR ''.'' # ys"
    by (auto dest: split_list)
  then have ne: "tl d \<noteq> []" by auto
  define l where "l = last (tl d)"
  define h0 where "h0 = hd d"
  have td: "tl d = xs @ CHR ''.'' # ys @ [l]"
    using append_butlast_last_id [OF ne] sp by (simp add: l_def)
  define b where "b = h0 # xs"
  define c where "c = ys @ [l]"
  have "d \<noteq> []" using ne by auto
  then have "d = h0 # tl d" by (simp add: h0_def)
  then have dd: "d = b @ CHR ''.'' # c" unfolding td by (simp add: b_def c_def)
  have na: "\<forall>x \<in> set a. x \<noteq> CHR ''@''"
    unfolding a_def by (auto dest: set_takeWhileD)
  have nd: "CHR ''@'' \<notin> set d" using h(3) r by simp
  have e: "s = a @ CHR ''@'' # b @ CHR ''.'' # c"
    unfolding s r dd by simp
  have bc: "b \<noteq> []" "c \<noteq> []" by (simp_all add: b_def c_def)
  have q: "\<forall>x \<in> set (a @ b @ c). \<not> is_space x \<and> x \<noteq> CHR ''@''"
  proof
    fix x assume "x \<in> set (a @ b @ c)"
    then have x: "x \<in> set a \<or> x \<in> set d" unfolding dd by auto
    then have "x \<in> set s" unfolding s r by auto
    with h(4) have "\<not> is_space x" by simp
    moreover from x na nd have "x \<noteq> CHR ''@''" by auto
    ultimately show "\<not> is_space x \<and> x \<noteq> CHR ''@''" by simp
  qed
  from e h(1) bc q show ?thesis by blast
qed

lemma emailRegex_iff:
  "emailRegex s \<longleftrightarrow>
     (\<exists>a b c. s = a @ CHR ''@'' # b @ CHR ''.'' # c \<and> a \<noteq> [] \<and> b \<noteq> [] \<and> c \<noteq> []
        \<and> (\<forall>x \<in> set (a @ b @ c). \<not> is_space x \<and> x \<noteq> CHR ''@''))"
proof
  assume "emailRegex s"
  then show "\<exists>a b c. s = a @ CHR ''@'' # b @ CHR ''.'' # c \<and> a \<noteq> [] \<and> b \<noteq> [] \<and> c \<noteq> []
        \<and> (\<forall>x \<in> set (a @ b @ c). \<not> is_space x \<and> x \<noteq> CHR ''@'')"
    by (rule emailRegex_split)
next
  assume "\<exists>a b c. s = a @ CHR ''@'' # b @ CHR ''.'' # c \<and> a \<noteq> [] \<and> b \<noteq> [] \<and> c \<noteq> []
        \<and> (\<forall>x \<in> set (a @ b @ c). \<not> is_space x \<and> x \<noteq> CHR ''@'')"
  then obtain a b c where h: "s = a @ CHR ''@'' # b @ CHR ''.'' # c \<and> a \<noteq> [] \<and> b \<noteq> [] \<and> c \<noteq> []
        \<and> (\<forall>x \<in> set (a @ b @ c). \<not> is_space x \<and> x \<noteq> CHR ''@'')"
    by (elim exE)
  note s = h [THEN conjunct1]
  note n = h [THEN conjunct2, THEN conjunct1] h [THEN conjunct2, THEN conjunct2, THEN conjunct1]
    h [THEN conjunct2, THEN conjunct2, THEN conjunct2, THEN conjunct1]
  note q = h [THEN conjunct2, THEN conjunct2, THEN conjunct2, THEN conjunct2]
  show "emailRegex s" unfolding s using n q by (rule emailRegex_parts)
qed

section \<open>The validity window of a one-time code\<close>

text \<open>
  Claim C2, as the code has it. \<open>validateOTP\<close> reads one record: the first stored one
  whose email is the sanitized email and whose code is the code sent. For that record,
  the call made 299 seconds after its creation succeeds with \<open>OTP validated\<close>, and the
  call made 301 seconds after it is refused with \<open>Invalid or expired OTP\<close>; the same
  holds for every matching record that is the only one with its email and code. In
  general the call is refused with that error exactly when no record of the store matches
  the email and the code, or the present time is later than the found record's creation
  time plus five minutes.
\<close>

theorem validateOTP_window:
  "(OTP_findOne (otps s) (sanitizeInput email) code = Some r \<longrightarrow>
      fst (validateOTP (o_createdAt r + 299 * 1000) s email code) = Inr (200, Ack ''OTP validated'' True)
      \<and> fst (validateOTP (o_createdAt r + 301 * 1000) s email code) = Inl (Err 200 ''Invalid or expired OTP''))
   \<and> (r \<in> set (otps s) \<and> o_email r = sanitizeInput email \<and> Some (of_int (o_code r)) = code
        \<and> (\<forall>x \<in> set (otps s). o_email x = o_email r \<and> o_code x = o_code r \<longrightarrow> x = r) \<longrightarrow>
      fst (validateOTP (o_createdAt r + 299 * 1000) s email code) = Inr (200, Ack ''OTP validated'' True)
      \<and> fst (validateOTP (o_createdAt r + 301 * 1000) s email code) = Inl (Err 200 ''Invalid or expired OTP''))
   \<and> (fst (validateOTP now s email code) = Inl (Err 200 ''Invalid or expired OTP'') \<longleftrightarrow>
        (\<forall>x \<in> set (otps s). \<not> (o_email x = sanitizeInput email \<and> Some (of_int (o_code x)) = code))
        \<or> (\<exists>x. OTP_findOne (otps s) (sanitizeInput email) code = Some x
               \<and> now > o_createdAt x + 5 * 60 * 1000))"
proof -
  have a: "OTP_findOne (otps s) (sanitizeInput email) code = Some r \<Longrightarrow>
      fst (validateOTP (o_createdAt r + 299 * 1000) s email code) = Inr (200, Ack ''OTP validated'' True)
      \<and> fst (validateOTP (o_createdAt r + 301 * 1000) s email code) = Inl (Err 200 ''Invalid or expired OTP'')"
    by (simp add: validateOTP_def)
  have u: "r \<in> set (otps s) \<and> o_email r = sanitizeInput email \<and> Some (of_int (o_code r)) = code
        \<and> (\<forall>x \<in> set (otps s). o_email x = o_email r \<and> o_code x = o_code r \<longrightarrow> x = r)
      \<Longrightarrow> OTP_findOne (otps s) (sanitizeInput email) code = Some r"
    by (rule OTP_findOne_unique) simp_all
  have b: "fst (validateOTP now s email code) = Inl (Err 200 ''Invalid or expired OTP'') \<longleftrightarrow>
        (\<forall>x \<in> set (otps s). \<not> (o_email x = sanitizeInput email \<and> Some (of_int (o_code x)) = code))
        \<or> (\<exists>x. OTP_findOne (otps s) (sanitizeInput email) code = Some x
               \<and> now > o_createdAt x + 5 * 60 * 1000)"
  proof (cases "OTP_findOne (otps s) (sanitizeInput email) code")
    case None
    then show ?thesis
      using OTP_findOne_None_iff [of "otps s" "sanitizeInput email" code]
      by (simp add: validateOTP_def)
  next
    case (Some x)
    then have "\<not> (\<forall>x \<in> set (otps s). \<not> (o_email x = sanitizeInput email \<and> Some (of_int (o_code x)) = code))"
      using OTP_findOne_SomeD [OF Some] by blast
    with Some show ?thesis
      by (simp add: validateOTP_def)
  qed
  from a u have c: "r \<in> set (otps s) \<and> o_email r = sanitizeInput email \<and> Some (of_int (o_code r)) = code
        \<and> (\<forall>x \<in> set (otps s). o_email x = o_email r \<and> o_code x = o_code r \<longrightarrow> x = r) \<longrightarrow>
      fst (validateOTP (o_createdAt r + 299 * 1000) s email code) = Inr (200, Ack ''OTP validated'' True)
      \<and> fst (validateOTP (o_createdAt r + 301 * 1000) s email code) = Inl (Err 200 ''Invalid or expired OTP'')"
    by (rule_tac impI) (rule a, rule u)
  from a have a': "OTP_findOne (otps s) (sanitizeInput email) code = Some r \<longrightarrow>
      fst (validateOTP (o_createdAt r + 299 * 1000) s email code) = Inr (200, Ack ''OTP validated'' True)
      \<and> fst (validateOTP (o_createdAt r + 301 * 1000) s email code) = Inl (Err 200 ''Invalid or expired OTP'')"
    by (rule impI)
  from a' c b show ?thesis by (intro conjI)
qed

text \<open>
  The store with the two codes: the lookup finds the older record, and the window is the
  older record's.
\<close>

theorem validateOTP_window_witness:
  "OTP_findOne (otps twin_otp_store) (sanitizeInput (JStr ''ada@example.com'')) (Some 482913) = Some ada_otp
   \<and> fst (validateOTP (1000 + 299 * 1000) twin_otp_store (JStr ''ada@example.com'') (Some 482913))
       = Inr (200, Ack ''OTP validated'' True)
   \<and> fst (validateOTP (1000 + 301 * 1000) twin_otp_store (JStr ''ada@example.com'') (Some 482913))
       = Inl (Err 200 ''Invalid or expired OTP'')"
proof -
  have h: "OTP_findOne (otps twin_otp_store) (sanitizeInput (JStr ''ada@example.com'')) (Some 482913) = Some ada_otp"
    by code_simp
  have c: "o_createdAt ada_otp = 1000" by (simp add: ada_otp_def)
  note validateOTP_window [of twin_otp_store "JStr ''ada@example.com''" "Some 482913" ada_otp,
      THEN conjunct1, THEN mp, OF h]
  from this h show ?thesis unfolding c by simp
qed

text \<open>
  The younger of the two records matches the email and the code sent, and 299 seconds
  after its creation the call is refused: the lookup has found its older twin, which has
  expired.
\<close>

theorem validateOTP_refuses_later_twin:
  "ada_otp_late \<in> set (otps twin_otp_store)
   \<and> o_email ada_otp_late = sanitizeInput (JStr ''ada@example.com'')
   \<and> Some (of_int (o_code ada_otp_late)) = Some (482913 :: rat)
   \<and> fst (validateOTP (o_createdAt ada_otp_late + 299 * 1000) twin_otp_store
            (JStr ''ada@example.com'') (Some 482913))
       = Inl (Err 200 ''Invalid or expired OTP'')"
  by code_simp

section \<open>What a password reset changes\<close>

lemma User_save_password_update:
  "find (\<lambda>u. u_id u = i) us = Some v \<Longrightarrow>
   \<exists>k < length us. u_id (us ! k) = i \<and>
      User_save_password E i p us = us[k := (us ! k)\<lparr>u_password := presave E p\<rparr>]"
proof (induction us)
  case Nil
  then show ?case by simp
next
  case (Cons a us)
  show ?case
  proof (cases "u_id a = i")
    case True
    then have "u_id ((a # us) ! 0) = i \<and>
      User_save_password E i p (a # us) = (a # us)[0 := ((a # us) ! 0)\<lparr>u_password := presave E p\<rparr>]"
      by simp
    then show ?thesis by blast
  next
    case False
    with Cons.prems have "find (\<lambda>u. u_id u = i) us = Some v" by simp
    from Cons.IH [OF this] obtain k where k: "k < length us" "u_id (us ! k) = i"
      "User_save_password E i p us = us[k := (us ! k)\<lparr>u_password := presave E p\<rparr>]"
      by blast
    with False have "Suc k < length (a # us) \<and> u_id ((a # us) ! Suc k) = i \<and>
      User_save_password E i p (a # us) = (a # us)[Suc k := ((a # us) ! Suc k)\<lparr>u_password := presave E p\<rparr>]"
      by simp
    then show ?thesis by blast
  qed
qed

lemma find_by_id_of_found:
  "find P us = Some u \<Longrightarrow> \<exists>v. find (\<lambda>x. u_id x = u_id u) us = Some v"
proof -
  assume "find P us = Some u"
  then have "u \<in> set us" by (auto simp: find_Some_iff)
  then have "find (\<lambda>x. u_id x = u_id u) us \<noteq> None"
    by (auto simp: find_None_iff)
  then show ?thesis by blast
qed

text \<open>
  Claim C3. A successful \<open>resetPassword\<close> leaves the OTP collection and the mails as they
  were, so the record that matched is still found afterwards; in the user collection it
  replaces the password of one document, the one with the id of the user found by the
  lower-cased email, and nothing else. \<open>validateOTP\<close> returns the stores it was given.
\<close>

theorem resetPassword_frame:
  assumes "resetPassword E now s email code newPassword confirmPassword = (Inr r, s')"
  shows "otps s' = otps s \<and> outbox s' = outbox s
     \<and> OTP_findOne (otps s') (sanitizeInput email) code \<noteq> None
     \<and> (\<exists>u k. User_findOne_email (users s) (toLowerCase (sanitizeInput email)) = Some u
            \<and> k < length (users s) \<and> u_id (users s ! k) = u_id u
            \<and> users s' = (users s)[k := (users s ! k)\<lparr>u_password := presave E (js_string newPassword)\<rparr>])
     \<and> snd (validateOTP t s0 e c) = s0"
proof -
  from assms obtain u where
    f: "User_findOne_email (users s) (toLowerCase (sanitizeInput email)) = Some u"
    and o: "OTP_findOne (otps s) (sanitizeInput email) code \<noteq> None"
    and s': "s' = s\<lparr>users := User_save_password E (u_id u) (js_string newPassword) (users s)\<rparr>"
    by (auto simp: resetPassword_def Let_def split: if_splits option.splits)
  from f obtain v where "find (\<lambda>x. u_id x = u_id u) (users s) = Some v"
    unfolding User_findOne_email_def using find_by_id_of_found by blast
  from User_save_password_update [OF this, of E "js_string newPassword"]
  obtain k where k: "k < length (users s)" "u_id (users s ! k) = u_id u"
    "User_save_password E (u_id u) (js_string newPassword) (users s)
       = (users s)[k := (users s ! k)\<lparr>u_password := presave E (js_string newPassword)\<rparr>]"
    by blast
  have v: "snd (validateOTP t s0 e c) = s0"
    by (simp add: validateOTP_def Let_def split: option.splits)
  from f o s' k v show ?thesis by auto
qed

text \<open>A reset of Ada's password with the code 482913, one second after the code was made.\<close>

theorem resetPassword_frame_witness:
  "resetPassword demo_env 2000 ada_otp_store (JStr ''ada@example.com'') (Some 482913)
      (JStr ''newpass9'') (JStr ''newpass9'')
     = (Inr (200, Ack ''Password reset successfully'' True),
        ada_otp_store\<lparr>users := [ada\<lparr>u_password := ''#newpass9''\<rparr>]\<rparr>)
   \<and> otps (ada_otp_store\<lparr>users := [ada\<lparr>u_password := ''#newpass9''\<rparr>]\<rparr>) = otps ada_otp_store
   \<and> OTP_findOne (otps (ada_otp_store\<lparr>users := [ada\<lparr>u_password := ''#newpass9''\<rparr>]\<rparr>))
        (sanitizeInput (JStr ''ada@example.com'')) (Some 482913) \<noteq> None"
proof -
  have h: "resetPassword demo_env 2000 ada_otp_store (JStr ''ada@example.com'') (Some 482913)
      (JStr ''newpass9'') (JStr ''newpass9'')
     = (Inr (200, Ack ''Password reset successfully'' True),
        ada_otp_store\<lparr>users := [ada\<lparr>u_password := ''#newpass9''\<rparr>]\<rparr>)"
    by code_simp
  from h resetPassword_frame [OF h] show ?thesis by blast
qed

section \<open>The boundary of the window\<close>

text \<open>
  Claim C10. At exactly 300000 milliseconds after the found record's creation,
  \<open>validateOTP\<close> accepts the code and \<open>resetPassword\<close> does not refuse it as expired
  (with valid matching passwords and an existing user it succeeds); one millisecond
  later both refuse it. The comparison is a strict greater-than.
\<close>

theorem otp_boundary_inclusive:
  assumes "OTP_findOne (otps s) (sanitizeInput email) code = Some r"
    and "now = o_createdAt r + 300000"
  shows "fst (validateOTP now s email code) = Inr (200, Ack ''OTP validated'' True)
     \<and> fst (validateOTP (now + 1) s email code) = Inl (Err 200 ''Invalid or expired OTP'')
     \<and> (truthy newPassword \<and> truthy confirmPassword \<longrightarrow>
          fst (resetPassword E now s email code newPassword confirmPassword)
            \<noteq> Inl (Err 200 ''Invalid or expired OTP'')
          \<and> fst (resetPassword E (now + 1) s email code newPassword confirmPassword)
            = Inl (Err 200 ''Invalid or expired OTP''))
     \<and> (truthy newPassword \<and> strict_eq newPassword confirmPassword \<and> validatePassword newPassword
          \<and> User_findOne_email (users s) (toLowerCase (sanitizeInput email)) \<noteq> None \<longrightarrow>
          fst (resetPassword E now s email code newPassword confirmPassword)
            = Inr (200, Ack ''Password reset successfully'' True))"
proof -
  have v: "fst (validateOTP now s email code) = Inr (200, Ack ''OTP validated'' True)"
    "fst (validateOTP (now + 1) s email code) = Inl (Err 200 ''Invalid or expired OTP'')"
    using assms by (simp_all add: validateOTP_def)
  have r1: "truthy newPassword \<and> truthy confirmPassword \<longrightarrow>
          fst (resetPassword E now s email code newPassword confirmPassword)
            \<noteq> Inl (Err 200 ''Invalid or expired OTP'')"
    using assms by (simp add: resetPassword_def split: option.splits)
  have r2: "truthy newPassword \<and> truthy confirmPassword \<longrightarrow>
          fst (resetPassword E (now + 1) s email code newPassword confirmPassword)
            = Inl (Err 200 ''Invalid or expired OTP'')"
    using assms by (simp add: resetPassword_def)
  have c: "truthy newPassword \<Longrightarrow> strict_eq newPassword confirmPassword \<Longrightarrow> truthy confirmPassword"
    by (cases newPassword; cases confirmPassword) auto
  have r3: "truthy newPassword \<and> strict_eq newPassword confirmPassword \<and> validatePassword newPassword
          \<and> User_findOne_email (users s) (toLowerCase (sanitizeInput email)) \<noteq> None \<longrightarrow>
          fst (resetPassword E now s email code newPassword confirmPassword)
            = Inr (200, Ack ''Password reset successfully'' True)"
    using assms c by (auto simp add: resetPassword_def)
  from v r1 r2 r3 show ?thesis by blast
qed

text \<open>The code created at time 1000, used at time 301000.\<close>

theorem otp_boundary_inclusive_witness:
  "OTP_findOne (otps ada_otp_store) (sanitizeInput (JStr ''ada@example.com'')) (Some 482913) = Some ada_otp
   \<and> (301000::int) = o_createdAt ada_otp + 300000
   \<and> fst (validateOTP 301000 ada_otp_store (JStr ''ada@example.com'') (Some 482913))
       = Inr (200, Ack ''OTP validated'' True)
   \<and> fst (validateOTP (301000 + 1) ada_otp_store (JStr ''ada@example.com'') (Some 482913))
       = Inl (Err 200 ''Invalid or expired OTP'')"
proof -
  have h: "OTP_findOne (otps ada_otp_store) (sanitizeInput (JStr ''ada@example.com'')) (Some 482913) = Some ada_otp"
    by code_simp
  have c: "(301000::int) = o_createdAt ada_otp + 300000" by (simp add: ada_otp_def)
  from h c otp_boundary_inclusive [OF h c] show ?thesis by blast
qed

section \<open>Login does not tell whether an email is known\<close>

lemma js_trim_Nil: "js_trim [] = []"
  by (simp add: js_trim_def)

lemma emailRegex_Nil: "\<not> emailRegex []"
  by (simp add: emailRegex_def)

lemma valid_email_truthy:
  "validateEmail (JStr (sanitizeInput email)) \<Longrightarrow> truthy email"
  by (cases email) (auto simp: js_trim_Nil emailRegex_Nil)

text \<open>
  Claim C6. For a well-formed email, a login against a store with no user of that email
  and a login against a store where the user exists but the password does not match get
  the same answer; when a password was sent, that answer is the error
  \<open>Invalid email or password\<close> with status 401 in both cases.
\<close>

theorem loginUser_undifferentiated:
  assumes "validateEmail (JStr (sanitizeInput email))"
    and "User_findOne_email (users s1) (toLowerCase (sanitizeInput email)) = None"
    and "User_findOne_email (users s2) (toLowerCase (sanitizeInput email)) = Some u"
    and "\<not> matchPassword E (u_password u) password"
  shows "fst (loginUser E now s1 email password) = fst (loginUser E now s2 email password)
     \<and> (truthy password \<longrightarrow>
          fst (loginUser E now s1 email password) = Inl (Err 401 ''Invalid email or password''))"
proof -
  have t: "truthy email" using assms(1) by (rule valid_email_truthy)
  have a: "fst (loginUser E now s1 email password) =
      (if truthy password then Inl (Err 401 ''Invalid email or password'')
       else Inl (Err 200 ''Please provide email and password''))"
    using t assms(1,2) by (simp add: loginUser_def)
  have b: "fst (loginUser E now s2 email password) =
      (if truthy password then Inl (Err 401 ''Invalid email or password'')
       else Inl (Err 200 ''Please provide email and password''))"
    using t assms(1,3,4) by (simp add: loginUser_def)
  from a b show ?thesis by simp
qed

text \<open>Ada's email with a wrong password, against the empty store and against her record.\<close>

theorem loginUser_undifferentiated_witness:
  "validateEmail (JStr (sanitizeInput (JStr ''Ada@Example.com'')))
   \<and> fst (loginUser demo_env 7 empty_store (JStr ''Ada@Example.com'') (JStr ''wrong1''))
       = fst (loginUser demo_env 7 ada_store (JStr ''Ada@Example.com'') (JStr ''wrong1''))
   \<and> fst (loginUser demo_env 7 empty_store (JStr ''Ada@Example.com'') (JStr ''wrong1''))
       = Inl (Err 401 ''Invalid email or password'')"
proof -
  have h1: "validateEmail (JStr (sanitizeInput (JStr ''Ada@Example.com'')))"
    by code_simp
  have h2: "User_findOne_email (users empty_store)
              (toLowerCase (sanitizeInput (JStr ''Ada@Example.com''))) = None"
    by code_simp
  have h3: "User_findOne_email (users ada_store)
              (toLowerCase (sanitizeInput (JStr ''Ada@Example.com''))) = Some ada"
    by code_simp
  have h4: "\<not> matchPassword demo_env (u_password ada) (JStr ''wrong1'')"
    by code_simp
  have h5: "truthy (JStr ''wrong1'')" by simp
  from h1 h5 loginUser_undifferentiated [OF h1 h2 h3 h4, of 7] show ?thesis by blast
qed

section \<open>Lower case and trimming\<close>

lemma of_char_bounds: "of_char (c::char) < (256::nat)"
  by (cases c) (simp add: of_char_def horner_sum_bit_eq_take_bit)

lemma upper_az_nat: "is_upper_az c \<longleftrightarrow> 65 \<le> (of_char c :: nat) \<and> (of_char c :: nat) \<le> 90"
  by (simp add: is_upper_az_def less_eq_char_def)

lemma lower_char_changes: "is_upper_az c \<Longrightarrow> lower_char c \<noteq> c"
proof
  assume u: "is_upper_az c" and e: "lower_char c = c"
  from u e have "char_of (of_char c + (32::nat)) = c" by (simp add: lower_char_def)
  then have "of_char (char_of (of_char c + (32::nat))) = (of_char c :: nat)" by simp
  then have "(of_char c + 32) mod 256 = (of_char c :: nat)" by (simp add: of_char_of)
  with u show False by (simp add: upper_az_nat)
qed

lemma lower_char_idem: "lower_char (lower_char c) = lower_char c"
proof (cases "is_upper_az c \<or> (CHR 0xC0 \<le> c \<and> c \<le> CHR 0xDE \<and> c \<noteq> CHR 0xD7)")
  case False
  then have "lower_char c = c" unfolding lower_char_def by (rule if_not_P)
  then show ?thesis by simp
next
  case True
  define n :: nat where "n = of_char c"
  have l: "lower_char c = char_of (n + 32)" using True by (simp add: lower_char_def n_def)
  from True have r: "(65 \<le> n \<and> n \<le> 90) \<or> (192 \<le> n \<and> n \<le> 222)"
    by (auto simp: upper_az_nat less_eq_char_def n_def)
  then have m: "(of_char (char_of (n + 32) :: char) :: nat) = n + 32"
    by (auto simp: of_char_of)
  from r m have "\<not> is_upper_az (char_of (n + 32))"
    "\<not> (CHR 0xC0 \<le> (char_of (n + 32) :: char) \<and> (char_of (n + 32) :: char) \<le> CHR 0xDE)"
    by (auto simp: upper_az_nat less_eq_char_def)
  then have "\<not> (is_upper_az (char_of (n + 32))
      \<or> (CHR 0xC0 \<le> (char_of (n + 32) :: char) \<and> (char_of (n + 32) :: char) \<le> CHR 0xDE
          \<and> (char_of (n + 32) :: char) \<noteq> CHR 0xD7))"
    by blast
  then have "lower_char (char_of (n + 32)) = char_of (n + 32)"
    unfolding lower_char_def by (rule if_not_P)
  then show ?thesis unfolding l .
qed

lemma toLowerCase_idem: "toLowerCase (toLowerCase s) = toLowerCase s"
  by (simp add: toLowerCase_def lower_char_idem)

lemma toLowerCase_changes: "c \<in> set s \<Longrightarrow> is_upper_az c \<Longrightarrow> toLowerCase s \<noteq> s"
proof
  assume c: "c \<in> set s" "is_upper_az c" and e: "toLowerCase s = s"
  from e have "map lower_char s = map id s" by (simp add: toLowerCase_def)
  then have "lower_char c = id c" using c(1) by (simp only: map_eq_conv)
  with lower_char_changes [OF c(2)] show False by simp
qed

lemma set_dropWhile_keeps: "x \<in> set xs \<Longrightarrow> \<not> P x \<Longrightarrow> x \<in> set (dropWhile P xs)"
  by (induction xs) auto

lemma set_js_trim_keeps: "c \<in> set s \<Longrightarrow> \<not> is_space c \<Longrightarrow> c \<in> set (js_trim s)"
  by (simp add: js_trim_def set_dropWhile_keeps)

lemma upper_not_space: "is_upper_az c \<Longrightarrow> \<not> is_space c \<and> c \<noteq> CHR ''$''"
  by (auto simp: is_upper_az_def is_space_def)

lemma sanitizeInput_keeps_upper:
  assumes "c \<in> set e" "is_upper_az c"
  shows "c \<in> set (sanitizeInput (JStr e))"
proof -
  from assms upper_not_space have t: "c \<in> set (js_trim e)" "c \<noteq> CHR ''$''"
    by (auto intro: set_js_trim_keeps)
  then show ?thesis by (cases "js_trim e") auto
qed



section \<open>Upper-case letters in the email of a reset\<close>

lemma forgotPassword_otps:
  "otps (snd (forgotPassword E otpCode now s email)) = otps s
   \<or> otps (snd (forgotPassword E otpCode now s email))
        = OTP_create now (otps s) (toLowerCase (sanitizeInput email)) otpCode"
  by (simp add: forgotPassword_def Let_def split: option.splits)

lemma forgotPassword_keeps_normalized:
  assumes "otp_emails_normalized (otps s)"
  shows "otp_emails_normalized (otps (snd (forgotPassword E otpCode now s email)))"
proof -
  from forgotPassword_otps [of E otpCode now s email] show ?thesis
  proof
    assume "otps (snd (forgotPassword E otpCode now s email)) = otps s"
    with assms show ?thesis by simp
  next
    assume "otps (snd (forgotPassword E otpCode now s email))
        = OTP_create now (otps s) (toLowerCase (sanitizeInput email)) otpCode"
    with assms show ?thesis
      by (simp add: otp_emails_normalized_def OTP_create_def toLowerCase_idem)
  qed
qed

lemma forgotPassword_issues:
  assumes "validateEmail (JStr (sanitizeInput email))"
    and "User_findOne_email (users s) (toLowerCase (sanitizeInput email)) \<noteq> None"
  shows "otps (snd (forgotPassword E otpCode now s email))
        = OTP_create now (otps s) (toLowerCase (sanitizeInput email)) otpCode"
proof -
  from assms(2) obtain u where
    u: "User_findOne_email (users s) (toLowerCase (sanitizeInput email)) = Some u"
    by blast
  have t: "truthy email" using assms(1) by (rule valid_email_truthy)
  show ?thesis
    unfolding forgotPassword_def Let_def using t assms(1) u
    by (simp split: option.splits)
qed

lemma normalized_no_upper_match:
  assumes "otp_emails_normalized os" "c \<in> set e" "is_upper_az c"
  shows "OTP_findOne os (sanitizeInput (JStr e)) code = None"
proof (rule ccontr)
  assume "OTP_findOne os (sanitizeInput (JStr e)) code \<noteq> None"
  then obtain r where "OTP_findOne os (sanitizeInput (JStr e)) code = Some r" by blast
  from OTP_findOne_SomeD [OF this] assms(1)
  have "toLowerCase (sanitizeInput (JStr e)) = sanitizeInput (JStr e)"
    by (auto simp: otp_emails_normalized_def)
  moreover have "toLowerCase (sanitizeInput (JStr e)) \<noteq> sanitizeInput (JStr e)"
    using sanitizeInput_keeps_upper [OF assms(2,3)] assms(3) by (rule toLowerCase_changes)
  ultimately show False by simp
qed

text \<open>
  Claim C9. Let the email sent contain an upper-case letter A to Z, and let every email in
  the OTP collection be in lower case (as every record written by \<open>forgotPassword\<close>
  is). After \<open>forgotPassword\<close> with that email, \<open>validateOTP\<close> with the same email is
  refused with \<open>Invalid or expired OTP\<close> whatever the code and the time, and so is
  \<open>resetPassword\<close> when both passwords are sent: the new record is stored under the
  lower-cased email, and the lookup uses the email as sent.
\<close>

theorem uppercase_round_trip_fails:
  assumes "c \<in> set e" and "is_upper_az c"
    and "otp_emails_normalized (otps s)"
    and "s' = snd (forgotPassword E otpCode now s (JStr e))"
  shows "fst (validateOTP now' s' (JStr e) code) = Inl (Err 200 ''Invalid or expired OTP'')
     \<and> (truthy newPassword \<and> truthy confirmPassword \<longrightarrow>
          fst (resetPassword E now' s' (JStr e) code newPassword confirmPassword)
            = Inl (Err 200 ''Invalid or expired OTP''))
     \<and> (validateEmail (JStr (sanitizeInput (JStr e)))
          \<and> User_findOne_email (users s) (toLowerCase (sanitizeInput (JStr e))) \<noteq> None \<longrightarrow>
          otps s' = otps s @ [\<lparr>o_email = toLowerCase (sanitizeInput (JStr e)),
                                o_code = otpCode, o_createdAt = now\<rparr>])"
proof -
  have n: "otp_emails_normalized (otps s')"
    unfolding assms(4) using assms(3) by (rule forgotPassword_keeps_normalized)
  have f: "OTP_findOne (otps s') (sanitizeInput (JStr e)) code = None"
    using n assms(1,2) by (rule normalized_no_upper_match)
  have v: "fst (validateOTP now' s' (JStr e) code) = Inl (Err 200 ''Invalid or expired OTP'')"
    using f by (simp add: validateOTP_def)
  have r: "truthy newPassword \<and> truthy confirmPassword \<longrightarrow>
          fst (resetPassword E now' s' (JStr e) code newPassword confirmPassword)
            = Inl (Err 200 ''Invalid or expired OTP'')"
    using f by (simp add: resetPassword_def)
  have i: "validateEmail (JStr (sanitizeInput (JStr e)))
          \<and> User_findOne_email (users s) (toLowerCase (sanitizeInput (JStr e))) \<noteq> None \<longrightarrow>
          otps s' = otps s @ [\<lparr>o_email = toLowerCase (sanitizeInput (JStr e)),
                                o_code = otpCode, o_createdAt = now\<rparr>]"
    unfolding assms(4) using forgotPassword_issues [of "JStr e" s E otpCode now]
    by (simp add: OTP_create_def)
  from v r i show ?thesis by blast
qed

text \<open>Ada asks for a code as \<open>Ada@Example.com\<close> and sends the code issued one second later.\<close>

theorem uppercase_round_trip_fails_witness:
  "CHR ''A'' \<in> set ''Ada@Example.com'' \<and> is_upper_az CHR ''A''
   \<and> otps (snd (forgotPassword demo_env 100000 1000 ada_store (JStr ''Ada@Example.com'')))
       = [\<lparr>o_email = ''ada@example.com'', o_code = 100000, o_createdAt = 1000\<rparr>]
   \<and> fst (validateOTP 2000 (snd (forgotPassword demo_env 100000 1000 ada_store (JStr ''Ada@Example.com'')))
            (JStr ''Ada@Example.com'') (Some 100000))
       = Inl (Err 200 ''Invalid or expired OTP'')"
proof -
  have h1: "CHR ''A'' \<in> set ''Ada@Example.com''" by simp
  have h2: "is_upper_az CHR ''A''" by code_simp
  have h3: "otp_emails_normalized (otps ada_store)" by code_simp
  have h4: "validateEmail (JStr (sanitizeInput (JStr ''Ada@Example.com'')))" by code_simp
  have h5: "User_findOne_email (users ada_store)
              (toLowerCase (sanitizeInput (JStr ''Ada@Example.com''))) \<noteq> None" by code_simp
  have h6: "toLowerCase (sanitizeInput (JStr ''Ada@Example.com'')) = ''ada@example.com''"
    by code_simp
  have h7: "otps ada_store = []" by (simp add: ada_store_def)
  from h1 h2 h4 h5
    uppercase_round_trip_fails [where E = demo_env and otpCode = 100000 and now = 1000 and now' = 2000
      and code = "Some 100000", OF h1 h2 h3 refl]
  show ?thesis unfolding h6 h7 by simp
qed

section \<open>The two acknowledgments of forgotPassword\<close>

text \<open>
  Claim C1. For a well-formed email and a delivered mail, \<open>forgotPassword\<close> answers
  \<open>If account exists, OTP sent\<close> when no user has the email and \<open>OTP sent\<close> when one
  has: both with status 200 and \<open>success\<close> true, but the two messages are different, so
  the two answers are not the same.
\<close>

theorem forgotPassword_messages_differ:
  assumes "validateEmail (JStr (sanitizeInput email))"
    and "User_findOne_email (users s1) (toLowerCase (sanitizeInput email)) = None"
    and "User_findOne_email (users s2) (toLowerCase (sanitizeInput email)) = Some u"
    and "sendEmail E (sanitizeInput email) ''Password Reset OTP''
           (''Your OTP code is '' @ show_int otpCode @ ''. Valid for 5 minutes.'') = None"
  shows "fst (forgotPassword E otpCode now s1 email) = Inr (200, Ack ''If account exists, OTP sent'' True)
     \<and> fst (forgotPassword E otpCode now s2 email) = Inr (200, Ack ''OTP sent'' True)
     \<and> fst (forgotPassword E otpCode now s1 email) \<noteq> fst (forgotPassword E otpCode now s2 email)"
proof -
  have t: "truthy email" using assms(1) by (rule valid_email_truthy)
  have a: "fst (forgotPassword E otpCode now s1 email) = Inr (200, Ack ''If account exists, OTP sent'' True)"
    using t assms(1,2) by (simp add: forgotPassword_def)
  have b: "fst (forgotPassword E otpCode now s2 email) = Inr (200, Ack ''OTP sent'' True)"
    using t assms(1,3,4) by (simp add: forgotPassword_def Let_def)
  from a b show ?thesis by simp
qed

text \<open>The two answers for Ada's email, against the empty store and against her record.\<close>

theorem forgotPassword_messages_differ_witness:
  "fst (forgotPassword demo_env 599999 1000 empty_store (JStr ''ada@example.com''))
     = Inr (200, Ack ''If account exists, OTP sent'' True)
   \<and> fst (forgotPassword demo_env 599999 1000 ada_store (JStr ''ada@example.com''))
     = Inr (200, Ack ''OTP sent'' True)"
proof -
  have h1: "validateEmail (JStr (sanitizeInput (JStr ''ada@example.com'')))" by code_simp
  have h2: "User_findOne_email (users empty_store)
              (toLowerCase (sanitizeInput (JStr ''ada@example.com''))) = None" by code_simp
  have h3: "User_findOne_email (users ada_store)
              (toLowerCase (sanitizeInput (JStr ''ada@example.com''))) = Some ada" by code_simp
  have h4: "sendEmail demo_env (sanitizeInput (JStr ''ada@example.com'')) ''Password Reset OTP''
           (''Your OTP code is '' @ show_int 599999 @ ''. Valid for 5 minutes.'') = None"
    by (simp add: demo_env_def)
  from forgotPassword_messages_differ [OF h1 h2 h3 h4, of 1000] show ?thesis by blast
qed

section \<open>What the Google route sends back\<close>

text \<open>
  Claim C4. When the identity token verifies, \<open>googleAuth\<close> answers with status 200, a
  token signed for the user's id, and the user document as it is stored: for a user who
  exists already the object carries the stored password hash, for a new one the empty
  password. The password is not removed as the other routes remove it.
\<close>

theorem googleAuth_sends_password:
  assumes "verifyIdToken E token = Some pl"
  shows "(User_findOne_email (users s) (g_email pl) = Some u \<longrightarrow>
            googleAuth E now s token
              = (Inr (200, GoogleOk True (jwt_sign E (u_id u) now) (toObject u)), s)
            \<and> j_password (toObject u) = Some (u_password u))
     \<and> (User_findOne_email (users s) (g_email pl) = None \<longrightarrow>
            (\<exists>tok ob. fst (googleAuth E now s token) = Inr (200, GoogleOk True tok ob)
                       \<and> j_password ob = Some []))"
proof -
  have a: "User_findOne_email (users s) (g_email pl) = Some u \<longrightarrow>
            googleAuth E now s token
              = (Inr (200, GoogleOk True (jwt_sign E (u_id u) now) (toObject u)), s)
            \<and> j_password (toObject u) = Some (u_password u)"
    using assms by (simp add: googleAuth_def toObject_def)
  have b: "User_findOne_email (users s) (g_email pl) = None \<longrightarrow>
            (\<exists>tok ob. fst (googleAuth E now s token) = Inr (200, GoogleOk True tok ob)
                       \<and> j_password ob = Some [])"
  proof
    assume n: "User_findOne_email (users s) (g_email pl) = None"
    obtain v vs where c: "User_create E (users s) (g_name pl) (g_email pl) [] (g_picture pl) = (v, vs)"
      by (cases "User_create E (users s) (g_name pl) (g_email pl) [] (g_picture pl)")
    then have p: "u_password v = []"
      by (auto simp: User_create_def Let_def presave_def)
    have "fst (googleAuth E now s token)
            = Inr (200, GoogleOk True (jwt_sign E (u_id v) now) (toObject v))"
      using assms n c by (simp add: googleAuth_def)
    moreover have "j_password (toObject v) = Some []"
      using p by (simp add: toObject_def)
    ultimately show "\<exists>tok ob. fst (googleAuth E now s token) = Inr (200, GoogleOk True tok ob)
                       \<and> j_password ob = Some []"
      by blast
  qed
  from a b show ?thesis by blast
qed

text \<open>Ada, registered with a password, signs in with Google.\<close>

theorem googleAuth_sends_password_witness:
  "verifyIdToken demo_env (JStr ''good'')
     = Some \<lparr>g_email = ''ada@example.com'', g_name = ''Ada Lovelace'', g_picture = None\<rparr>
   \<and> fst (googleAuth demo_env 5 ada_store (JStr ''good''))
     = Inr (200, GoogleOk True ''G1''
               \<lparr>j_id = 1, j_username = ''ada_l'', j_email = ''ada@example.com'',
                j_password = Some ''#secret1'', j_profilePic = None\<rparr>)"
proof -
  have h: "verifyIdToken demo_env (JStr ''good'')
     = Some \<lparr>g_email = ''ada@example.com'', g_name = ''Ada Lovelace'', g_picture = None\<rparr>"
    by (simp add: demo_env_def)
  have f: "User_findOne_email (users ada_store)
            (g_email \<lparr>g_email = ''ada@example.com'', g_name = ''Ada Lovelace'', g_picture = None\<rparr>) = Some ada"
    by code_simp
  have t: "GoogleOk True (jwt_sign demo_env (u_id ada) 5) (toObject ada)
     = GoogleOk True ''G1''
               \<lparr>j_id = 1, j_username = ''ada_l'', j_email = ''ada@example.com'',
                j_password = Some ''#secret1'', j_profilePic = None\<rparr>"
    by code_simp
  from h f googleAuth_sends_password [OF h, of ada_store ada 5] show ?thesis
    unfolding t by simp
qed

section \<open>Pending actions of the client\<close>

text \<open>
  Every fulfilled and every rejected action ends the loading, and a rejected action puts
  its payload into \<open>error\<close>.
\<close>

lemma settled_actions:
  "loading (extraReducers st k (Fulfilled u t)) = False"
  "loading (extraReducers st k (Rejected p)) = False"
  "error (extraReducers st k (Rejected p)) = p"
  by (cases k; simp)+

text \<open>
  Claim C8. The pending actions of \<open>validateOTP\<close> and \<open>resetPassword\<close> have no case in
  the reducer: the state stays as it was, so \<open>loading\<close> is not set and an earlier error
  is not cleared, while the pending action of \<open>forgotPassword\<close> sets \<open>loading\<close> and
  clears the error.
\<close>

theorem pending_without_case:
  "extraReducers st T_validateOTP Pending = st \<and> extraReducers st T_resetPassword Pending = st
   \<and> (loading st = False \<longrightarrow> loading (extraReducers st T_validateOTP Pending) \<noteq> True)
   \<and> (error st \<noteq> Null \<longrightarrow> error (extraReducers st T_resetPassword Pending) \<noteq> Null)
   \<and> loading (extraReducers st T_forgotPassword Pending) = True
   \<and> error (extraReducers st T_forgotPassword Pending) = Null"
  by simp

text \<open>A state that is not loading and still holds the error of an earlier attempt.\<close>

theorem pending_without_case_witness:
  "loading idle_state = False \<and> error idle_state = Val ''Invalid or expired OTP''
   \<and> loading (extraReducers idle_state T_validateOTP Pending) = False
   \<and> error (extraReducers idle_state T_validateOTP Pending) = Val ''Invalid or expired OTP''
   \<and> loading (extraReducers idle_state T_resetPassword Pending) = False
   \<and> error (extraReducers idle_state T_resetPassword Pending) = Val ''Invalid or expired OTP''"
proof -
  have h: "loading idle_state = False" "error idle_state = Val ''Invalid or expired OTP''"
    by (simp_all add: idle_state_def)
  from h pending_without_case [of idle_state] show ?thesis by simp
qed

section \<open>What a registration stores\<close>

lemma registerUser_users:
  "snd (registerUser E now s username email password) = s
   \<or> (validateUsername (JStr (sanitizeInput username))
      \<and> validateEmail (JStr (sanitizeInput email))
      \<and> User_findOne_email (users s) (toLowerCase (sanitizeInput email)) = None
      \<and> User_findOne_username (users s) (sanitizeInput username) = None
      \<and> snd (registerUser E now s username email password)
          = s\<lparr>users := users s @
               [\<lparr>u_id = fresh_id (users s), u_username = sanitizeInput username,
                 u_email = toLowerCase (sanitizeInput email),
                 u_password = presave E (js_string password), u_profilePic = None\<rparr>]\<rparr>)"
  by (simp add: registerUser_def Let_def User_create_def)








text \<open>
  Only one dollar sign is removed: an email sent with two of them passes the email
  pattern with the second one and is stored with it.
\<close>

lemma register_keeps_second_dollar:
  "map u_email (users (snd (registerUser demo_env 5 empty_store
      (JStr ''carol'') (JStr ''$$a@b.c'') (JStr ''secret1'')))) = [''$a@b.c'']"
  by code_simp

section \<open>Usernames and emails across requests\<close>

lemma identity_invariant_maps:
  "identity_invariant us \<longleftrightarrow>
     (\<forall>n \<in> set (map u_username us). usernameRegex n)
     \<and> distinct (map u_username us)
     \<and> distinct (map toLowerCase (map u_email us))"
  by (simp add: identity_invariant_def comp_def)

lemma emails_normalized_maps:
  "emails_normalized us \<longleftrightarrow> (\<forall>e \<in> set (map u_email us). toLowerCase e = e)"
  by (simp add: emails_normalized_def)

lemma invariant_same_names:
  assumes "map u_username vs = map u_username us" and "map u_email vs = map u_email us"
  shows "identity_invariant vs = identity_invariant us"
    and "emails_normalized vs = emails_normalized us"
  unfolding identity_invariant_maps emails_normalized_maps assms by (rule refl)+

lemma User_save_password_names:
  "map u_username (User_save_password E i p us) = map u_username us"
  "map u_email (User_save_password E i p us) = map u_email us"
  by (induction us) auto

lemma normalized_lower_emails:
  "emails_normalized us \<Longrightarrow> map toLowerCase (map u_email us) = map u_email us"
  by (induction us) (auto simp: emails_normalized_def)

lemma invariant_append:
  assumes "identity_invariant us" and "emails_normalized us"
    and "usernameRegex (u_username x)" and "u_username x \<notin> set (map u_username us)"
    and "toLowerCase (u_email x) = u_email x" and "u_email x \<notin> set (map u_email us)"
  shows "identity_invariant (us @ [x]) \<and> emails_normalized (us @ [x])"
proof -
  have n: "emails_normalized (us @ [x])"
    using assms(2,5) by (auto simp: emails_normalized_def)
  have l: "map toLowerCase (map u_email us) = map u_email us"
    using assms(2) by (rule normalized_lower_emails)
  have d: "distinct (map toLowerCase (map u_email (us @ [x])))"
    using assms(1,5,6) l by (simp add: identity_invariant_maps)
  have "identity_invariant (us @ [x])"
    using assms(1,3,4) d by (auto simp: identity_invariant_maps)
  with n show ?thesis by simp
qed

lemma User_findOne_email_None: "User_findOne_email us e = None \<Longrightarrow> e \<notin> set (map u_email us)"
  by (auto simp: User_findOne_email_def find_None_iff)

lemma User_findOne_username_None: "User_findOne_username us n = None \<Longrightarrow> n \<notin> set (map u_username us)"
  by (auto simp: User_findOne_username_def find_None_iff)

text \<open>
  A username sent as a dollar sign, a space and \<open>abc\<close> passes the check, which trims
  once more, and is stored with the space.
\<close>

lemma register_stores_inner_space:
  "map u_username (users (snd (registerUser demo_env 5 empty_store
      (JStr ''$ abc'') (JStr ''a@x.io'') (JStr ''secret1'')))) = ['' abc'']"
  by code_simp

lemma registerUser_keeps_invariant:
  assumes "identity_invariant (users s)" and "emails_normalized (users s)"
    and "js_trim (sanitizeInput u) = sanitizeInput u"
  shows "identity_invariant (users (snd (registerUser E now s u e p)))
     \<and> emails_normalized (users (snd (registerUser E now s u e p)))"
proof -
  let ?x = "\<lparr>u_id = fresh_id (users s), u_username = sanitizeInput u,
             u_email = toLowerCase (sanitizeInput e),
             u_password = presave E (js_string p), u_profilePic = None\<rparr>"
  from registerUser_users [of E now s u e p] show ?thesis
  proof
    assume "snd (registerUser E now s u e p) = s"
    with assms(1,2) show ?thesis by simp
  next
    assume a: "validateUsername (JStr (sanitizeInput u))
      \<and> validateEmail (JStr (sanitizeInput e))
      \<and> User_findOne_email (users s) (toLowerCase (sanitizeInput e)) = None
      \<and> User_findOne_username (users s) (sanitizeInput u) = None
      \<and> snd (registerUser E now s u e p) = s\<lparr>users := users s @ [?x]\<rparr>"
    then have r: "usernameRegex (u_username ?x)" using assms(3) by simp
    have n: "u_username ?x \<notin> set (map u_username (users s))"
      using a User_findOne_username_None [of "users s" "sanitizeInput u"] by simp
    have l: "toLowerCase (u_email ?x) = u_email ?x" by (simp add: toLowerCase_idem)
    have m: "u_email ?x \<notin> set (map u_email (users s))"
      using a User_findOne_email_None [of "users s" "toLowerCase (sanitizeInput e)"] by simp
    from invariant_append [OF assms(1,2) r n l m] a show ?thesis by simp
  qed
qed

lemma resetPassword_users:
  "users (snd (resetPassword E now s e c p q)) = users s
   \<or> (\<exists>i. users (snd (resetPassword E now s e c p q))
            = User_save_password E i (js_string p) (users s))"
  by (auto simp: resetPassword_def Let_def split: option.splits)

lemma resetPassword_keeps_invariant:
  "identity_invariant (users (snd (resetPassword E now s e c p q))) = identity_invariant (users s)
   \<and> emails_normalized (users (snd (resetPassword E now s e c p q))) = emails_normalized (users s)"
  using resetPassword_users [of E now s e c p q]
    invariant_same_names [OF User_save_password_names]
  by (elim disjE exE) simp_all

lemma other_handlers_keep_users:
  "users (snd (loginUser E now s e p)) = users s"
  "users (snd (forgotPassword E otpCode now s e)) = users s"
  "users (snd (validateOTP now s e c)) = users s"
  by (simp_all add: loginUser_def forgotPassword_def validateOTP_def Let_def split: option.splits)

lemma step_keeps_invariant:
  assumes "identity_invariant (users s)" and "emails_normalized (users s)"
    and "validated_path r"
  shows "identity_invariant (users (step E (t, r) s)) \<and> emails_normalized (users (step E (t, r) s))"
proof (cases r)
  case (Register u e p)
  with assms registerUser_keeps_invariant [of s u E t e p] show ?thesis by simp
next
  case (Login e p)
  with assms show ?thesis by (simp add: other_handlers_keep_users)
next
  case (GoogleSignIn tk)
  with assms(3) show ?thesis by simp
next
  case (ForgotPassword otpCode e)
  with assms show ?thesis by (simp add: other_handlers_keep_users)
next
  case (ValidateOTP e c)
  with assms show ?thesis by (simp add: other_handlers_keep_users)
next
  case (ResetPassword e c p q)
  with assms resetPassword_keeps_invariant [of E t s e c p q] show ?thesis by simp
qed

text \<open>
  Claim C5, as the code has it. Start from a store whose user records satisfy the three
  properties (username of 3 to 20 letters, digits and underscores; unique usernames;
  emails unique without regard to case) and hold lower-case emails, as the empty store
  does. After any sequence of register, login, forgotPassword, validateOTP and
  resetPassword requests, none of them a Google sign-in and no registration with a
  sanitized username that still has white space around it, the records satisfy the
  three properties again and their emails are still in lower case.
\<close>

theorem identity_invariant_preserved:
  assumes "identity_invariant (users s)" and "emails_normalized (users s)"
    and "\<forall>r \<in> set rs. validated_path (snd r)"
  shows "identity_invariant (users (run E rs s)) \<and> emails_normalized (users (run E rs s))"
  using assms
proof (induction rs arbitrary: s)
  case Nil
  then show ?case by simp
next
  case (Cons r rs)
  obtain t q where r: "r = (t, q)" by (cases r)
  with Cons.prems(3) have v: "validated_path q" by simp
  from step_keeps_invariant [OF Cons.prems(1,2) v, of E t]
  have "identity_invariant (users (step E r s))" "emails_normalized (users (step E r s))"
    unfolding r by simp_all
  moreover from Cons.prems(3) have "\<forall>x \<in> set rs. validated_path (snd x)" by simp
  ultimately show ?case using Cons.IH [of "step E r s"] by simp
qed

text \<open>
  Two sign-ups from the empty store, with a login and a refused duplicate of the email in
  another case between them.
\<close>

theorem identity_invariant_preserved_witness:
  "identity_invariant (users (run demo_env two_sign_ups empty_store))
   \<and> map u_username (users (run demo_env two_sign_ups empty_store)) = [''ada_l'', ''grace'']
   \<and> map u_email (users (run demo_env two_sign_ups empty_store))
        = [''ada@example.com'', ''grace@example.com'']"
proof -
  have h1: "identity_invariant (users empty_store)"
    by (simp add: empty_store_def identity_invariant_def)
  have h2: "emails_normalized (users empty_store)"
    by (simp add: empty_store_def emails_normalized_def)
  have h3: "\<forall>r \<in> set two_sign_ups. validated_path (snd r)"
    by code_simp
  have e: "map u_username (users (run demo_env two_sign_ups empty_store)) = [''ada_l'', ''grace'']"
    "map u_email (users (run demo_env two_sign_ups empty_store))
        = [''ada@example.com'', ''grace@example.com'']"
    by code_simp+
  from identity_invariant_preserved [OF h1 h2 h3, of demo_env] e show ?thesis by simp
qed

text \<open>
  One Google sign-in from the empty store creates a user whose username is the display
  name \<open>Ada Lovelace\<close>, which has a space in it.
\<close>

theorem google_username_unchecked:
  "\<not> identity_invariant (users (run demo_env [(5, GoogleSignIn (JStr ''good''))] empty_store))"
  by code_simp

section \<open>One-time codes across requests\<close>

text \<open>
  No handler but \<open>forgotPassword\<close> writes the OTP collection, so in every store reached
  from the empty one the emails of the OTP records are in lower case.
\<close>

lemma step_keeps_otps_normalized:
  assumes "otp_emails_normalized (otps s)"
  shows "otp_emails_normalized (otps (step E r s))"
proof -
  obtain t q where r: "r = (t, q)" by (cases r)
  show ?thesis
  proof (cases q)
    case (ForgotPassword otpCode e)
    with r assms show ?thesis by (simp add: forgotPassword_keeps_normalized)
  next
    case (Register u e p)
    have "otps (snd (registerUser E t s u e p)) = otps s"
      using registerUser_users [of E t s u e p] by auto
    with r Register assms show ?thesis by simp
  next
    case (Login e p)
    have "otps (snd (loginUser E t s e p)) = otps s"
      by (simp add: loginUser_def Let_def split: option.splits)
    with r Login assms show ?thesis by simp
  next
    case (GoogleSignIn tk)
    have "otps (snd (googleAuth E t s tk)) = otps s"
      by (simp add: googleAuth_def split: option.splits prod.splits)
    with r GoogleSignIn assms show ?thesis by simp
  next
    case (ValidateOTP e c)
    have "otps (snd (validateOTP t s e c)) = otps s"
      by (simp add: validateOTP_def Let_def split: option.splits)
    with r ValidateOTP assms show ?thesis by simp
  next
    case (ResetPassword e c p q')
    have "otps (snd (resetPassword E t s e c p q')) = otps s"
      by (simp add: resetPassword_def Let_def split: option.splits)
    with r ResetPassword assms show ?thesis by simp
  qed
qed

lemma run_keeps_otps_normalized:
  "otp_emails_normalized (otps s) \<Longrightarrow> otp_emails_normalized (otps (run E rs s))"
  by (induction rs arbitrary: s) (simp_all add: step_keeps_otps_normalized)

lemma reachable_otps_normalized: "otp_emails_normalized (otps (run E rs empty_store))"
  by (rule run_keeps_otps_normalized) (simp add: empty_store_def otp_emails_normalized_def)

text \<open>
  The store with the two codes is reached when \<open>forgotPassword\<close> draws the same code for
  Ada twice, ten minutes apart.
\<close>

lemma twin_codes_reachable:
  "otps (run demo_env
      [(1000, ForgotPassword 482913 (JStr ''ada@example.com'')),
       (601000, ForgotPassword 482913 (JStr ''ada@example.com''))] ada_store)
     = otps twin_otp_store"
proof -
  let ?e = "JStr ''ada@example.com''"
  let ?s1 = "snd (forgotPassword demo_env 482913 1000 ada_store ?e)"
  let ?s2 = "snd (forgotPassword demo_env 482913 601000 ?s1 ?e)"
  have v: "validateEmail (JStr (sanitizeInput ?e))" by code_simp
  have l: "toLowerCase (sanitizeInput ?e) = ''ada@example.com''" by code_simp
  have f: "User_findOne_email (users ada_store) (toLowerCase (sanitizeInput ?e)) \<noteq> None"
    by code_simp
  have u: "users ?s1 = users ada_store" by (rule other_handlers_keep_users)
  have "otps ?s1 = OTP_create 1000 (otps ada_store) (toLowerCase (sanitizeInput ?e)) 482913"
    using v f by (rule forgotPassword_issues)
  then have o1: "otps ?s1 = [ada_otp]"
    unfolding l by (simp add: OTP_create_def ada_store_def ada_otp_def)
  have "otps ?s2 = OTP_create 601000 (otps ?s1) (toLowerCase (sanitizeInput ?e)) 482913"
    using f unfolding u [symmetric] by (rule forgotPassword_issues [OF v])
  then have o2: "otps ?s2 = [ada_otp, ada_otp_late]"
    unfolding o1 l by (simp add: OTP_create_def ada_otp_late_def)
  show ?thesis by (simp add: o2 twin_otp_store_def)
qed

end
